theory Spec2Isabelle
  imports Complex_Main "HOL-Library.Word"
begin

unbundle bit_operations_syntax

section \<open>Masks as uint8 arrays\<close>

text \<open>
  A mask is a two-dimensional numpy array. The functions of \<^verbatim>\<open>masks.py\<close> cast their
  arguments with \<^verbatim>\<open>astype(np.uint8)\<close> or hand them to OpenCV, so a mask is modelled as
  a list of rows of 8-bit words. The two stored encodings are 0/1 and 0/255. The
  parameter \<^verbatim>\<open>mask\<close> of the source is written \<open>msk\<close>.
  Element-wise numpy operations on two arrays are modelled for arrays of the same shape.
\<close>

type_synonym u8 = "8 word"
type_synonym image = "u8 list list"

definition same_shape :: "image \<Rightarrow> image \<Rightarrow> bool" where
  "same_shape a b = (map length a = map length b)"

definition flatten :: "image \<Rightarrow> u8 list" where
  "flatten img = concat img"

definition count_nonzero :: "image \<Rightarrow> int" where
  "count_nonzero img = int (length (filter (\<lambda>v. v \<noteq> 0) (flatten img)))"

definition bitwise_not :: "image \<Rightarrow> image" where
  "bitwise_not img = map (map (\<lambda>v. NOT v)) img"

definition bitwise_and :: "image \<Rightarrow> image \<Rightarrow> image" where
  "bitwise_and a b = map2 (map2 (\<lambda>v w. v AND w)) a b"


text \<open>The number of cells of an array, and the encodings the specification names.\<close>

definition total_pixels :: "image \<Rightarrow> int" where
  "total_pixels img = int (length (flatten img))"

definition encoded_01 :: "image \<Rightarrow> bool" where
  "encoded_01 img = list_all (\<lambda>v. v = 0 \<or> v = 1) (flatten img)"

definition encoded_255 :: "image \<Rightarrow> bool" where
  "encoded_255 img = list_all (\<lambda>v. v = 0 \<or> v = 255) (flatten img)"

definition valid_encoding :: "image \<Rightarrow> bool" where
  "valid_encoding img = (encoded_01 img \<or> encoded_255 img)"

section \<open>Scorer: \<^verbatim>\<open>mask_evaluation\<close>\<close>

text \<open>
  Python raises \<^verbatim>\<open>Exception("Incorrect likelihood")\<close>; an index fault, a float
  division by zero and an OpenCV assertion failure are the other ways the functions of
  the file can fail.
\<close>

datatype error = Exception string | IndexError | ZeroDivisionError | CvError

text \<open>
  The values of a report. The divisions of \<^verbatim>\<open>mask_evaluation\<close> are float64 divisions of
  counts; they are idealised as exact rational arithmetic (a quotient of counts is zero as
  a float exactly when it is zero as a rational, so every test \<^verbatim>\<open>!= 0\<close> of the source
  takes the same branch). \<^verbatim>\<open>cohen_kappa_score\<close> belongs to scikit-learn; it is a
  parameter of the model and its result is kept opaque (\<open>Lib\<close>). \<open>NaN\<close> and the
  infinities are what numpy's division yields for a zero divisor.
\<close>

datatype float64 = Float rat | NaN | PosInf | NegInf

datatype 'k val = Num float64 | Lib 'k

type_synonym 'k report = "string \<rightharpoonup> 'k val"

text \<open>Lines 28 to 45: the counts computed before the report is filled.\<close>

record confusion =
  cnt_P :: int
  cnt_N :: int
  cnt_fn :: int
  cnt_tp :: int
  cnt_fp :: int
  cnt_tn :: int

definition confusion_counts :: "image \<Rightarrow> image \<Rightarrow> confusion" where
  "confusion_counts msk likelihood =
     (let P = count_nonzero likelihood;
          invert_likelihood = bitwise_not likelihood;
          N = count_nonzero invert_likelihood;
          fn = count_nonzero (bitwise_and (bitwise_not msk) likelihood);
          tp = count_nonzero (bitwise_and msk likelihood);
          fp = count_nonzero (bitwise_and msk (bitwise_not likelihood));
          tn = N - fp
      in \<lparr>cnt_P = P, cnt_N = N, cnt_fn = fn, cnt_tp = tp, cnt_fp = fp, cnt_tn = tn\<rparr>)"

definition mask_evaluation ::
  "(u8 list \<Rightarrow> u8 list \<Rightarrow> 'k) \<Rightarrow> image \<Rightarrow> image \<Rightarrow> error + 'k report" where
  "mask_evaluation cohen_kappa_score msk likelihood =
     (let c = confusion_counts msk likelihood;
          P = cnt_P c; N = cnt_N c
      in if N = 0 \<or> P = 0 then Inl (Exception ''Incorrect likelihood'')
         else
           let FN = of_int (cnt_fn c) / of_int P;
               TP = of_int (cnt_tp c) / of_int P;
               FP = of_int (cnt_fp c) / of_int N;
               stats = [''FN'' \<mapsto> Num (Float FN), ''TP'' \<mapsto> Num (Float TP), ''FP'' \<mapsto> Num (Float FP)];
               Recall = (if TP \<noteq> 0 \<or> FN \<noteq> 0 then TP / (TP + FN) else 0);
               stats = stats(''Recall'' \<mapsto> Num (Float Recall));
               Precision = (if TP \<noteq> 0 \<or> FP \<noteq> 0 then TP / (TP + FP) else 0);
               stats = stats(''Precision'' \<mapsto> Num (Float Precision))
           in if Precision \<noteq> 0 \<or> Recall \<noteq> 0
              then Inr (stats(
                     ''F1'' \<mapsto> Num (Float ((2 * Precision * Recall) / (Precision + Recall))),
                     ''accuracy'' \<mapsto> Num (Float (of_int (cnt_tp c + cnt_tn c) / of_int (P + N))),
                     ''cohen_kappa'' \<mapsto>
                        Lib (cohen_kappa_score (flatten likelihood) (flatten msk))))
              else Inr stats)"

section \<open>Scorer: \<^verbatim>\<open>mask_sklearn_evaluation\<close>\<close>

text \<open>
  Modelled from the spec: \<^verbatim>\<open>precision_recall_fscore_support(average="micro")\<close> and
  \<^verbatim>\<open>accuracy_score\<close> are functions of scikit-learn, which is not part of the
  repository. The specification describes them as ``micro-averaged
  precision/recall/F1-beta plus accuracy''. Micro-averaging sums, over every label that
  occurs in \<open>y_true\<close> or \<open>y_pred\<close>, the label's true positives, its predicted count and
  its true count, and divides the sums; a zero denominator yields 0. Accuracy is the
  share of positions where the two sequences agree.
\<close>

definition sk_labels :: "u8 list \<Rightarrow> u8 list \<Rightarrow> u8 list" where
  "sk_labels y_true y_pred = remdups (y_true @ y_pred)"

definition sk_tp :: "u8 list \<Rightarrow> u8 list \<Rightarrow> u8 \<Rightarrow> int" where
  "sk_tp y_true y_pred c =
     int (length (filter (\<lambda>(t, p). t = c \<and> p = c) (zip y_true y_pred)))"

definition sk_pred_count :: "u8 list \<Rightarrow> u8 \<Rightarrow> int" where
  "sk_pred_count y_pred c = int (length (filter (\<lambda>p. p = c) y_pred))"

definition sk_true_count :: "u8 list \<Rightarrow> u8 \<Rightarrow> int" where
  "sk_true_count y_true c = int (length (filter (\<lambda>t. t = c) y_true))"

definition prf_divide :: "int \<Rightarrow> int \<Rightarrow> rat" where
  "prf_divide a b = (if b = 0 then 0 else of_int a / of_int b)"

definition precision_recall_fscore_support_micro ::
  "u8 list \<Rightarrow> u8 list \<Rightarrow> rat \<times> rat \<times> rat" where
  "precision_recall_fscore_support_micro y_true y_pred =
     (let labels = sk_labels y_true y_pred;
          tp_sum = sum_list (map (sk_tp y_true y_pred) labels);
          pred_sum = sum_list (map (sk_pred_count y_pred) labels);
          true_sum = sum_list (map (sk_true_count y_true) labels);
          precision = prf_divide tp_sum pred_sum;
          recall = prf_divide tp_sum true_sum;
          f_score = (if tp_sum = 0 then 0
                     else 2 * precision * recall / (precision + recall))
      in (precision, recall, f_score))"

text \<open>float64 division as numpy performs it: a zero divisor gives NaN or an infinity.\<close>

definition np_divide :: "rat \<Rightarrow> rat \<Rightarrow> float64" where
  "np_divide a b =
     (if b = 0 then (if a = 0 then NaN else if 0 < a then PosInf else NegInf)
      else Float (a / b))"

definition accuracy_score :: "u8 list \<Rightarrow> u8 list \<Rightarrow> float64" where
  "accuracy_score y_true y_pred =
     np_divide (of_nat (length (filter (\<lambda>(t, p). t = p) (zip y_true y_pred))))
               (of_nat (length y_true))"

definition mask_sklearn_evaluation ::
  "(u8 list \<Rightarrow> u8 list \<Rightarrow> 'k) \<Rightarrow> image \<Rightarrow> image \<Rightarrow> 'k report" where
  "mask_sklearn_evaluation cohen_kappa_score msk likelihood =
     (let y_true = flatten likelihood;
          y_pred = flatten msk;
          metrics = precision_recall_fscore_support_micro y_true y_pred;
          Precision = fst metrics;
          Recall = fst (snd metrics);
          stats = [''Precision'' \<mapsto> Num (Float Precision),
                   ''Recall'' \<mapsto> Num (Float Recall),
                   ''Fbeta'' \<mapsto> Num (Float (snd (snd metrics))),
                   ''cohen_kappa'' \<mapsto> Lib (cohen_kappa_score y_true y_pred),
                   ''accuracy'' \<mapsto> Num (accuracy_score y_true y_pred)]
      in stats(''F1'' \<mapsto> Num (np_divide (2 * Precision * Recall) (Precision + Recall))))"

section \<open>Geometry: \<^verbatim>\<open>masks_coincidence\<close>\<close>

text \<open>
  \<^verbatim>\<open>np.count_nonzero\<close> returns a Python int and \<^verbatim>\<open>np.min\<close> a numpy integer, so
  \<^verbatim>\<open>equals / max_pix\<close> is numpy's true division: with a zero divisor it raises nothing
  and yields NaN (for 0/0) or an infinity.
\<close>

definition masks_coincidence :: "image \<Rightarrow> image \<Rightarrow> float64" where
  "masks_coincidence mask1 mask2 =
     (let res = bitwise_and mask1 mask2;
          equals = count_nonzero res;
          n_pix1 = count_nonzero mask1;
          n_pix2 = count_nonzero mask2;
          max_pix = min n_pix1 n_pix2
      in np_divide (of_int equals) (of_int max_pix))"

text \<open>The size of the intersection of two masks, counted on the pixels themselves.\<close>

definition selected_both :: "image \<Rightarrow> image \<Rightarrow> int" where
  "selected_both a b =
     int (length (filter (\<lambda>(v, w). v \<noteq> 0 \<and> w \<noteq> 0) (zip (flatten a) (flatten b))))"

section \<open>Geometry: pixels of an image\<close>

text \<open>
  A point is \<open>(x, y)\<close>, column first, as OpenCV writes it; the array stores row \<open>y\<close>
  first. \<open>map_pixels\<close> rewrites every cell from its position and its old value.
\<close>

type_synonym point = "nat \<times> nat"

definition in_image :: "image \<Rightarrow> point \<Rightarrow> bool" where
  "in_image img p = (snd p < length img \<and> fst p < length (img ! snd p))"

definition pixel :: "image \<Rightarrow> point \<Rightarrow> u8" where
  "pixel img p = img ! snd p ! fst p"

definition map_pixels :: "(point \<Rightarrow> u8 \<Rightarrow> u8) \<Rightarrow> image \<Rightarrow> image" where
  "map_pixels f img =
     map (\<lambda>y. map (\<lambda>x. f (x, y) (img ! y ! x)) [0..<length (img ! y)]) [0..<length img]"

text \<open>The positions of an image, row by row.\<close>

definition all_points :: "image \<Rightarrow> point list" where
  "all_points img =
     concat (map (\<lambda>y. map (\<lambda>x. (x, y)) [0..<length (img ! y)]) [0..<length img])"

section \<open>Geometry: \<^verbatim>\<open>mask_fill_holes\<close>\<close>

text \<open>
  Modelled from the spec: \<^verbatim>\<open>cv2.threshold\<close> and \<^verbatim>\<open>cv2.floodFill\<close> belong to OpenCV,
  which is not part of the repository. ``Binarize (threshold at 1)'' with
  \<^verbatim>\<open>THRESH_BINARY_INV\<close> sends a cell above the threshold to 0 and every other cell to
  \<open>maxval\<close>. ``Flood fill: a region-growing fill algorithm starting from a seed point'':
  with the default flags and zero tolerances the region is the 4-connected set of pixels
  reached from the seed through pixels of equal value, and it is repainted with the new
  value. A seed outside the image is an OpenCV error. The auxiliary array of
  \<open>h + 2\<close> by \<open>w + 2\<close> zeros that the source passes to \<^verbatim>\<open>floodFill\<close> blocks no pixel.
\<close>

definition threshold_binary_inv :: "image \<Rightarrow> u8 \<Rightarrow> u8 \<Rightarrow> image" where
  "threshold_binary_inv src thresh maxval = map (map (\<lambda>v. if thresh < v then 0 else maxval)) src"

definition adjacent4 :: "point \<Rightarrow> point \<Rightarrow> bool" where
  "adjacent4 p q =
     ((fst p = fst q \<and> (snd p = Suc (snd q) \<or> snd q = Suc (snd p))) \<or>
      (snd p = snd q \<and> (fst p = Suc (fst q) \<or> fst q = Suc (fst p))))"

inductive flooded :: "image \<Rightarrow> point \<Rightarrow> point \<Rightarrow> bool" for img seed where
  flooded_seed: "in_image img seed \<Longrightarrow> flooded img seed seed"
| flooded_step: "flooded img seed p \<Longrightarrow> adjacent4 p q \<Longrightarrow> in_image img q \<Longrightarrow>
     pixel img q = pixel img p \<Longrightarrow> flooded img seed q"







section \<open>Geometry: contours\<close>

text \<open>
  \<^verbatim>\<open>cv2.findContours\<close>, \<^verbatim>\<open>cv2.contourArea\<close>, \<^verbatim>\<open>cv2.moments\<close>, \<^verbatim>\<open>cv2.fillPoly\<close>,
  \<^verbatim>\<open>cv2.drawContours\<close> and \<^verbatim>\<open>cv2.minEnclosingCircle\<close> belong to OpenCV, which is
  not part of the repository. The functions of \<^verbatim>\<open>masks.py\<close> that call
  \<^verbatim>\<open>findContours\<close> or \<^verbatim>\<open>minEnclosingCircle\<close> take the routine as a parameter, so
  what is proved of them holds whatever list of contours, or circle, the library returns.
  A contour is a list of integer points \<open>(x, y)\<close>.
\<close>

type_synonym ipoint = "int \<times> int"
type_synonym contour = "ipoint list"

datatype retr_mode = RETR_EXTERNAL | RETR_LIST | RETR_TREE
datatype approx_method = CHAIN_APPROX_NONE | CHAIN_APPROX_SIMPLE

text \<open>
  Modelled from the spec: \<^verbatim>\<open>cv2.findContours\<close>, ``extracts all contours'', where a
  contour is ``the boundary curve of a connected component''. The reference routine
  \<open>cv_findContours\<close> is the border following of Suzuki and Abe that OpenCV 3
  documents: the image is scanned row by row; a pixel 1 after a 0 starts an outer
  border, a 0 after a positive pixel starts a hole border; the border is followed
  through the 8 neighbours, its pixels are marked 2, or -2 where the border leaves to
  the right, and scanning goes on. \<^verbatim>\<open>RETR_EXTERNAL\<close> keeps the outer borders that
  lie in no other border; the other modes keep every border, and the list has the
  border found last first (the hierarchy order of \<^verbatim>\<open>RETR_TREE\<close> is not modelled: it is
  listed as \<^verbatim>\<open>RETR_LIST\<close>). \<^verbatim>\<open>CHAIN_APPROX_SIMPLE\<close> keeps the points where the
  direction changes. The loop that follows a border stops when it is back at its first
  step; it is bounded by eight steps for every pixel of the image, more than a border
  takes. The reference routine runs the functions at concrete images.
\<close>

type_synonym labels = "int list list"

definition lab_get :: "labels \<Rightarrow> ipoint \<Rightarrow> int" where
  "lab_get f p =
     (if 0 \<le> snd p \<and> snd p < int (length f) \<and> 0 \<le> fst p \<and>
         fst p < int (length (f ! nat (snd p)))
      then f ! nat (snd p) ! nat (fst p) else 0)"

definition lab_set :: "labels \<Rightarrow> ipoint \<Rightarrow> int \<Rightarrow> labels" where
  "lab_set f p v = f[nat (snd p) := (f ! nat (snd p))[nat (fst p) := v]]"

definition code_delta :: "nat \<Rightarrow> ipoint" where
  "code_delta s = [(1, 0), (1, -1), (0, -1), (-1, -1), (-1, 0), (-1, 1), (0, 1), (1, 1)] ! (s mod 8)"

definition move :: "ipoint \<Rightarrow> nat \<Rightarrow> ipoint" where
  "move p s = (fst p + fst (code_delta s), snd p + snd (code_delta s))"

definition first_neighbour_cw :: "labels \<Rightarrow> ipoint \<Rightarrow> nat \<Rightarrow> nat option" where
  "first_neighbour_cw f i0 s_end =
     find (\<lambda>s. lab_get f (move i0 s) \<noteq> 0) (map (\<lambda>k. (s_end + 8 - k) mod 8) [1..<8])"

definition next_neighbour_ccw :: "labels \<Rightarrow> ipoint \<Rightarrow> nat \<Rightarrow> nat" where
  "next_neighbour_ccw f i3 s =
     (case find (\<lambda>j. lab_get f (move i3 j) \<noteq> 0) [Suc s..<16] of
        Some j \<Rightarrow> j mod 8 | None \<Rightarrow> 7)"

fun follow_border ::
  "nat \<Rightarrow> approx_method \<Rightarrow> ipoint \<Rightarrow> ipoint \<Rightarrow> labels \<Rightarrow> ipoint \<Rightarrow> nat \<Rightarrow> nat \<Rightarrow> contour
     \<Rightarrow> labels \<times> contour" where
  "follow_border 0 method i0 i1 f i3 s prev_s pts = (f, pts)"
| "follow_border (Suc fuel) method i0 i1 f i3 s prev_s pts =
     (let s_end = s;
          s' = next_neighbour_ccw f i3 s;
          i4 = move i3 s';
          f' = (if 1 \<le> s' \<and> s' \<le> s_end then lab_set f i3 (-2)
                else if lab_get f i3 = 1 then lab_set f i3 2 else f);
          write = (s' \<noteq> prev_s \<or> method = CHAIN_APPROX_NONE);
          pts' = (if write then pts @ [i3] else pts);
          prev_s' = (if write then s' else prev_s)
      in if i4 = i0 \<and> i3 = i1 then (f', pts')
         else follow_border fuel method i0 i1 f' i4 ((s' + 4) mod 8) prev_s' pts')"

definition fetch_contour :: "labels \<Rightarrow> ipoint \<Rightarrow> bool \<Rightarrow> approx_method \<Rightarrow> labels \<times> contour" where
  "fetch_contour f origin is_hole method =
     (let s_end = (if is_hole then 0 else 4)
      in case first_neighbour_cw f origin s_end of
           None \<Rightarrow> (lab_set f origin (-2), [origin])
         | Some s \<Rightarrow>
             follow_border (8 * length (concat f) + 8) method origin (move origin s)
               f origin s ((s + 4) mod 8) [])"

record scanner =
  sc_img :: labels
  sc_prev :: int
  sc_lnbd :: "int option"
  sc_contours :: "contour list"

definition resume_scan :: "scanner \<Rightarrow> int \<Rightarrow> int \<Rightarrow> scanner" where
  "resume_scan st x p =
     st\<lparr>sc_prev := p, sc_lnbd := (if p \<noteq> 0 \<and> p \<noteq> 1 then Some x else sc_lnbd st)\<rparr>"

definition scan_pixel :: "retr_mode \<Rightarrow> approx_method \<Rightarrow> int \<Rightarrow> scanner \<Rightarrow> int \<Rightarrow> scanner" where
  "scan_pixel mode method y st x =
     (let prev = sc_prev st; p = lab_get (sc_img st) (x, y)
      in if p = prev then st
         else
           let outer = (prev = 0 \<and> p = 1);
               is_hole = (\<not> outer \<and> p = 0 \<and> 1 \<le> prev)
           in if \<not> outer \<and> \<not> is_hole then resume_scan st x p
              else
                let lnbd = (if is_hole \<and> prev \<noteq> 0 \<and> prev \<noteq> 1 then Some (x - 1)
                            else sc_lnbd st);
                    at_lnbd = (case lnbd of None \<Rightarrow> 0 | Some lx \<Rightarrow> lab_get (sc_img st) (lx, y))
                in if mode = RETR_EXTERNAL \<and> (is_hole \<or> 0 < at_lnbd)
                   then resume_scan (st\<lparr>sc_lnbd := lnbd\<rparr>) x p
                   else
                     let origin = (if is_hole then x - 1 else x, y);
                         (f', c) = fetch_contour (sc_img st) origin is_hole method
                     in \<lparr>sc_img = f', sc_prev = lab_get f' (x, y), sc_lnbd = Some (fst origin),
                         sc_contours = c # sc_contours st\<rparr>)"

definition scan_row :: "retr_mode \<Rightarrow> approx_method \<Rightarrow> scanner \<Rightarrow> nat \<Rightarrow> scanner" where
  "scan_row mode method st y =
     foldl (scan_pixel mode method (int y)) (st\<lparr>sc_prev := 0, sc_lnbd := None\<rparr>)
       (map int [0..<length (sc_img st ! y)])"

definition binary_labels :: "image \<Rightarrow> labels" where
  "binary_labels img = map (map (\<lambda>v. if v \<noteq> 0 then 1 else 0)) img"

definition cv_findContours :: "image \<Rightarrow> retr_mode \<Rightarrow> approx_method \<Rightarrow> contour list" where
  "cv_findContours img mode method =
     (let f0 = binary_labels img;
          st = foldl (scan_row mode method)
                 \<lparr>sc_img = f0, sc_prev = 0, sc_lnbd = None, sc_contours = []\<rparr> [0..<length img]
      in sc_contours st)"

section \<open>Geometry: polygons\<close>

text \<open>
  Modelled from the spec: \<^verbatim>\<open>cv2.contourArea\<close> and \<^verbatim>\<open>cv2.moments\<close> of a contour are
  computed by Green's formula over the closed polygon of its points (the area is the
  absolute value; the moments are zero when the area is zero). \<^verbatim>\<open>cv2.fillPoly\<close> and
  \<^verbatim>\<open>cv2.drawContours\<close> with a negative thickness paint the ``filled interior'' of a
  polygon: the pixels on its edges and the pixels inside it (even-odd rule, decided by
  a ray to the right).
\<close>

definition contour_edges :: "contour \<Rightarrow> (ipoint \<times> ipoint) list" where
  "contour_edges c = zip c (rotate1 c)"

definition green_a00 :: "contour \<Rightarrow> int" where
  "green_a00 c = sum_list (map (\<lambda>(a, b). fst a * snd b - fst b * snd a) (contour_edges c))"

definition contourArea :: "contour \<Rightarrow> rat" where
  "contourArea c = \<bar>of_int (green_a00 c)\<bar> / 2"

record moments =
  m00 :: rat
  m10 :: rat
  m01 :: rat

definition cv_moments :: "contour \<Rightarrow> moments" where
  "cv_moments c =
     (let a00 = green_a00 c;
          a10 = sum_list (map (\<lambda>(a, b). (fst a * snd b - fst b * snd a) * (fst a + fst b))
                  (contour_edges c));
          a01 = sum_list (map (\<lambda>(a, b). (fst a * snd b - fst b * snd a) * (snd a + snd b))
                  (contour_edges c))
      in if a00 = 0 then \<lparr>m00 = 0, m10 = 0, m01 = 0\<rparr>
         else \<lparr>m00 = \<bar>of_int a00\<bar> / 2,
               m10 = of_int (sgn a00 * a10) / 6,
               m01 = of_int (sgn a00 * a01) / 6\<rparr>)"

definition on_segment :: "ipoint \<Rightarrow> ipoint \<times> ipoint \<Rightarrow> bool" where
  "on_segment p e =
     (case e of (a, b) \<Rightarrow>
        (fst b - fst a) * (snd p - snd a) = (snd b - snd a) * (fst p - fst a) \<and>
        min (fst a) (fst b) \<le> fst p \<and> fst p \<le> max (fst a) (fst b) \<and>
        min (snd a) (snd b) \<le> snd p \<and> snd p \<le> max (snd a) (snd b))"

definition crosses_ray :: "ipoint \<Rightarrow> ipoint \<times> ipoint \<Rightarrow> bool" where
  "crosses_ray p e =
     (case e of (a, b) \<Rightarrow>
        (snd a \<le> snd p \<and> snd p < snd b \<and>
           (fst p - fst a) * (snd b - snd a) < (snd p - snd a) * (fst b - fst a)) \<or>
        (snd b \<le> snd p \<and> snd p < snd a \<and>
           (fst p - fst b) * (snd a - snd b) < (snd p - snd b) * (fst a - fst b)))"

definition poly_covers :: "contour \<Rightarrow> ipoint \<Rightarrow> bool" where
  "poly_covers c p =
     (list_ex (on_segment p) (contour_edges c) \<or>
      odd (length (filter (crosses_ray p) (contour_edges c))))"

definition paint_polys :: "image \<Rightarrow> contour list \<Rightarrow> u8 \<Rightarrow> image" where
  "paint_polys img pts color =
     map_pixels (\<lambda>p v. if list_ex (\<lambda>c. poly_covers c (int (fst p), int (snd p))) pts
                        then color else v) img"

text \<open>\<^verbatim>\<open>cv2.fillPoly(img, pts, color)\<close>.\<close>

definition fillPoly :: "image \<Rightarrow> contour list \<Rightarrow> u8 \<Rightarrow> image" where
  "fillPoly img pts color = paint_polys img pts color"


section \<open>Geometry: \<^verbatim>\<open>mask_biggest_connected_component\<close>\<close>

text \<open>Python's \<^verbatim>\<open>max(xs, key=...)\<close> returns the first element whose key is largest.\<close>

definition py_max_by :: "('a \<Rightarrow> rat) \<Rightarrow> 'a list \<Rightarrow> 'a" where
  "py_max_by key xs = foldl (\<lambda>best x. if key best < key x then x else best) (hd xs) (tl xs)"

definition zeros_like :: "image \<Rightarrow> image" where
  "zeros_like img = map (map (\<lambda>v. 0)) img"

text \<open>Lines 283 and 284: every nonzero cell becomes 255.\<close>

definition f_m_binary_of :: "image \<Rightarrow> image" where
  "f_m_binary_of msk = map (map (\<lambda>v. if v \<noteq> 0 then 255 else v)) msk"

definition mask_biggest_connected_component ::
  "(image \<Rightarrow> retr_mode \<Rightarrow> approx_method \<Rightarrow> contour list) \<Rightarrow> image \<Rightarrow> image" where
  "mask_biggest_connected_component findContours msk =
     (let f_m_binary = f_m_binary_of msk;
          contours = findContours f_m_binary RETR_EXTERNAL CHAIN_APPROX_NONE
      in if length contours = 0 then msk
         else
           let biggest_cnt = py_max_by contourArea contours;
               msk' = zeros_like f_m_binary
           in fillPoly msk' [biggest_cnt] 1)"

text \<open>Python's \<^verbatim>\<open>int\<close> of a float truncates towards zero.\<close>

definition int_trunc :: "rat \<Rightarrow> int" where
  "int_trunc q = (if 0 \<le> q then \<lfloor>q\<rfloor> else \<lceil>q\<rceil>)"

text \<open>\<^verbatim>\<open>cv2.drawContours(img, contours, contourIdx, color, -1)\<close>.\<close>

definition drawContours_filled :: "image \<Rightarrow> contour list \<Rightarrow> nat \<Rightarrow> u8 \<Rightarrow> image" where
  "drawContours_filled img contours contourIdx color =
     paint_polys img [contours ! contourIdx] color"

section \<open>Geometry: \<^verbatim>\<open>mask_delete_contour_in\<close>\<close>

text \<open>
  The body of the loop of lines 227 to 236, on the mask as it stands; a failure of an
  earlier iteration is passed on. \<^verbatim>\<open>region\<close> is a number; the moments are floats,
  idealised as exact rationals.
\<close>

text \<open>The test of lines 229 to 235: when a contour is erased.\<close>

definition prunes :: "rat \<Rightarrow> contour \<Rightarrow> bool" where
  "prunes region contour =
     (100 < contourArea contour \<and>
      of_int (int_trunc (m01 (cv_moments contour) / m00 (cv_moments contour))) < region)"

definition delete_contour_step :: "rat \<Rightarrow> error + image \<Rightarrow> contour \<Rightarrow> error + image" where
  "delete_contour_step region acc contour =
     (case acc of
        Inl e \<Rightarrow> Inl e
      | Inr msk \<Rightarrow>
          let area = contourArea contour
          in if 100 < area
             then
               let M = cv_moments contour
               in if m00 M = 0 then Inl ZeroDivisionError
                  else
                    let cx = int_trunc (m10 M / m00 M);
                        cy = int_trunc (m01 M / m00 M)
                    in if of_int cy < region
                       then Inr (drawContours_filled msk [contour] 0 0)
                       else Inr msk
             else Inr msk)"

definition mask_delete_contour_in ::
  "(image \<Rightarrow> retr_mode \<Rightarrow> approx_method \<Rightarrow> contour list) \<Rightarrow> image \<Rightarrow> rat \<Rightarrow> error + image" where
  "mask_delete_contour_in findContours msk region =
     (let contours = findContours msk RETR_TREE CHAIN_APPROX_SIMPLE
      in foldl (delete_contour_step region) (Inr msk) contours)"

section \<open>Geometry: \<^verbatim>\<open>mask_bounding_circle\<close>\<close>

text \<open>
  \<^verbatim>\<open>contours[0]\<close> raises IndexError on an empty list. The circle of
  \<^verbatim>\<open>minEnclosingCircle\<close> is a triple of floats, idealised as rationals.
\<close>

definition mask_bounding_circle ::
  "(image \<Rightarrow> retr_mode \<Rightarrow> approx_method \<Rightarrow> contour list) \<Rightarrow>
   (contour \<Rightarrow> (rat \<times> rat) \<times> rat) \<Rightarrow> image \<Rightarrow> error + ((int \<times> int) \<times> int)" where
  "mask_bounding_circle findContours minEnclosingCircle msk =
     (let th = threshold_binary_inv msk 1 255;
          contours = findContours th RETR_LIST CHAIN_APPROX_NONE
      in case contours of
           [] \<Rightarrow> Inl IndexError
         | cnt # _ \<Rightarrow>
             (case minEnclosingCircle cnt of
                ((x, y), radius) \<Rightarrow> Inr ((int_trunc x, int_trunc y), int_trunc radius)))"

section \<open>Example images\<close>


definition frame_island :: image where
  "frame_island = [[255,255,255,255,255,255,255,255,255,255,255,255,255,255,255,255,255,255,255,255,255,255,255,255,255,255,255],
   [255,0,0,0,0,0,0,0,0,0,0,0,0,0,0,0,0,0,0,0,0,0,0,0,0,0,255],
   [255,0,0,0,0,0,0,0,0,0,0,0,0,255,0,0,0,0,0,0,0,0,0,0,0,0,255],
   [255,0,0,0,0,0,0,0,0,0,0,0,0,0,0,0,0,0,0,0,0,0,0,0,0,0,255],
   [255,255,255,255,255,255,255,255,255,255,255,255,255,255,255,255,255,255,255,255,255,255,255,255,255,255,255]]"

section \<open>Counting lemmas\<close>

lemma count_nonzero_nonneg: "0 \<le> count_nonzero img"
  by (simp add: count_nonzero_def)


lemma flatten_bitwise_not: "flatten (bitwise_not a) = map (\<lambda>v. NOT v) (flatten a)"
  by (simp add: flatten_def bitwise_not_def map_concat)

lemma concat_map2_rows:
  "map length a = map length b \<Longrightarrow>
   concat (map2 (map2 f) a b) = map2 f (concat a) (concat b)"
proof (induction a arbitrary: b)
  case Nil
  then show ?case by simp
next
  case (Cons r a)
  then obtain s b' where b: "b = s # b'" by (cases b) auto
  with Cons.prems have len: "length r = length s" and rest: "map length a = map length b'"
    by auto
  show ?case using Cons.IH [OF rest] len by (simp add: b)
qed

lemma flatten_bitwise_and:
  "same_shape a b \<Longrightarrow>
   flatten (bitwise_and a b) = map2 (\<lambda>v w. v AND w) (flatten a) (flatten b)"
  by (simp add: same_shape_def flatten_def bitwise_and_def concat_map2_rows)

lemma same_shape_length: "same_shape a b \<Longrightarrow> length (flatten a) = length (flatten b)"
  unfolding same_shape_def flatten_def length_concat by simp

lemma same_shape_bitwise_not: "same_shape a b \<Longrightarrow> same_shape (bitwise_not a) b"
  by (simp add: same_shape_def bitwise_not_def comp_def)

lemma not_nonzero_255:
  "list_all (\<lambda>v. v = 0 \<or> v = (255::u8)) xs \<Longrightarrow>
   length (filter (\<lambda>v. v \<noteq> 0) (map (\<lambda>v. NOT v) xs)) + length (filter (\<lambda>v. v \<noteq> 0) xs)
     = length xs"
  by (induction xs) auto

lemma tp_fn_255:
  "length xs = length ys \<Longrightarrow> list_all (\<lambda>v. v = 0 \<or> v = (255::u8)) xs \<Longrightarrow>
   list_all (\<lambda>v. v = 0 \<or> v = (255::u8)) ys \<Longrightarrow>
   length (filter (\<lambda>v. v \<noteq> 0) (map2 (\<lambda>v w. v AND w) xs ys)) +
   length (filter (\<lambda>v. v \<noteq> 0) (map2 (\<lambda>v w. v AND w) (map (\<lambda>v. NOT v) xs) ys)) =
   length (filter (\<lambda>v. v \<noteq> 0) ys)"
  by (induction xs ys rule: list_induct2) auto

section \<open>The confusion counts\<close>

text \<open>
  In the 0/255 encoding the counts are what the comments of the source say: \<open>N\<close> is the
  number of unselected pixels of the reference, and the candidate splits the positives
  into \<open>tp\<close> and \<open>fn\<close>.
\<close>

lemma counts_N_encoded_255:
  assumes "encoded_255 likelihood"
  shows "cnt_N (confusion_counts msk likelihood)
       = total_pixels likelihood - cnt_P (confusion_counts msk likelihood)"
  using not_nonzero_255 [of "flatten likelihood"] assms
  by (simp add: confusion_counts_def Let_def count_nonzero_def total_pixels_def encoded_255_def
      flatten_bitwise_not)

lemma counts_tp_fn_encoded_255:
  assumes "same_shape msk likelihood" "encoded_255 msk" "encoded_255 likelihood"
  shows "cnt_tp (confusion_counts msk likelihood) + cnt_fn (confusion_counts msk likelihood)
       = cnt_P (confusion_counts msk likelihood)"
  using tp_fn_255 [of "flatten msk" "flatten likelihood"] assms same_shape_length [OF assms(1)]
  by (simp add: confusion_counts_def Let_def count_nonzero_def encoded_255_def
      flatten_bitwise_and same_shape_bitwise_not flatten_bitwise_not)

text \<open>In the 0/1 encoding every pixel counts as a negative.\<close>

lemma not_nonzero_01:
  "list_all (\<lambda>v. v = 0 \<or> v = (1::u8)) xs \<Longrightarrow>
   length (filter (\<lambda>v. v \<noteq> 0) (map (\<lambda>v. NOT v) xs)) = length xs"
  by (induction xs) auto

lemma counts_N_encoded_01:
  assumes "encoded_01 likelihood"
  shows "cnt_N (confusion_counts msk likelihood) = total_pixels likelihood"
  using not_nonzero_01 [of "flatten likelihood"] assms
  by (simp add: confusion_counts_def Let_def count_nonzero_def total_pixels_def encoded_01_def
      flatten_bitwise_not)

lemma counts_fp_tn:
  "cnt_fp (confusion_counts msk likelihood) + cnt_tn (confusion_counts msk likelihood)
     = cnt_N (confusion_counts msk likelihood)"
  by (simp add: confusion_counts_def Let_def)

text \<open>
  C1. For masks in either encoding, \<open>P\<close> is the number of selected pixels of the
  reference, \<open>N\<close> is the total number of pixels minus \<open>P\<close>, \<open>TP + FN = P\<close> and
  \<open>FP + TN = N\<close>. In the 0/1 encoding the source computes \<open>N\<close> with
  \<^verbatim>\<open>np.bitwise_not\<close> on uint8 values, where the complement of 1 is 254 and the
  complement of 0 is 255: every pixel counts as a negative. On the one-row reference
  \<open>[1, 0]\<close> the count \<open>N\<close> is 2, the total number of pixels, and not \<open>2 - P = 1\<close>.
\<close>

theorem confusion_counts_N_encoded_01:
  "encoded_01 [[1, 0]] \<and>
   confusion_counts [[1, 0]] [[1, 0]]
     = \<lparr>cnt_P = 1, cnt_N = 2, cnt_fn = 0, cnt_tp = 1, cnt_fp = 0, cnt_tn = 2\<rparr> \<and>
   total_pixels [[1, 0]] - cnt_P (confusion_counts [[1, 0]] [[1, 0]]) = 1"
  by (simp add: confusion_counts_def count_nonzero_def bitwise_not_def bitwise_and_def
      flatten_def total_pixels_def encoded_01_def)

section \<open>The degenerate reference\<close>

lemma mask_evaluation_fails_iff:
  "(\<exists>e. mask_evaluation k msk likelihood = Inl e) \<longleftrightarrow>
   cnt_N (confusion_counts msk likelihood) = 0 \<or> cnt_P (confusion_counts msk likelihood) = 0"
  by (simp add: mask_evaluation_def Let_def)

lemma mask_evaluation_fails_iff_encoded_255:
  assumes "encoded_255 likelihood"
  shows "mask_evaluation k msk likelihood = Inl (Exception ''Incorrect likelihood'') \<longleftrightarrow>
         count_nonzero likelihood = 0 \<or> count_nonzero likelihood = total_pixels likelihood"
proof -
  have "cnt_P (confusion_counts msk likelihood) = count_nonzero likelihood"
    by (simp add: confusion_counts_def Let_def)
  with counts_N_encoded_255 [OF assms, of msk] show ?thesis
    by (auto simp add: mask_evaluation_def Let_def)
qed

text \<open>
  C2. \<^verbatim>\<open>mask_evaluation\<close> fails exactly when the reference has no selected pixel or no
  unselected pixel. The reference \<open>[1, 1]\<close> in the 0/1 encoding has no unselected pixel,
  yet \<open>N\<close> is computed as 2 and the call returns a report instead of raising.
\<close>

theorem mask_evaluation_full_reference_encoded_01:
  "encoded_01 [[1, 1]] \<and> filter (\<lambda>v. v = 0) (flatten [[1, 1]]) = [] \<and>
   cnt_N (confusion_counts [[1, 1]] [[1, 1]]) = 2 \<and>
   (\<exists>stats. mask_evaluation k [[1, 1]] [[1, 1]] = Inr stats)"
  by (simp add: mask_evaluation_def confusion_counts_def count_nonzero_def bitwise_not_def
      bitwise_and_def flatten_def encoded_01_def Let_def)

theorem mask_evaluation_full_reference_encoded_01_witness:
  "\<exists>stats. mask_evaluation (\<lambda>_ _. ()) [[1, 1]] [[1, 1]] = Inr stats"
  using mask_evaluation_full_reference_encoded_01 [of "\<lambda>_ _. ()"] by simp

section \<open>The report\<close>



section \<open>The manual scorer against the library scorer\<close>

lemma confusion_counts_example:
  "confusion_counts [[255, 255, 0, 0]] [[255, 0, 0, 0]]
     = \<lparr>cnt_P = 1, cnt_N = 3, cnt_fn = 0, cnt_tp = 1, cnt_fp = 1, cnt_tn = 2\<rparr>"
  by (simp add: confusion_counts_def count_nonzero_def bitwise_not_def bitwise_and_def
      flatten_def)

lemma micro_example:
  "precision_recall_fscore_support_micro [255, 0, 0, 0] [255, 255, 0, 0] = (3 / 4, 3 / 4, 3 / 4)"
  by (simp add: precision_recall_fscore_support_micro_def sk_labels_def sk_tp_def
      sk_pred_count_def sk_true_count_def prf_divide_def Let_def)

text \<open>
  C3. On a well-posed input the two scorers report the same Precision, Recall, F1 and
  accuracy. The candidate \<open>[255, 255, 0, 0]\<close> against the reference \<open>[255, 0, 0, 0]\<close> is
  well posed (\<open>P = 1\<close>, \<open>N = 3\<close>, \<open>tp + fp = 2\<close>). The manual scorer reports Recall 1 and
  F1 6/7; the library scorer, which micro-averages, reports 3/4 for both. Only Precision
  and accuracy coincide here.
\<close>

theorem scorers_disagree:
  "cnt_P (confusion_counts [[255, 255, 0, 0]] [[255, 0, 0, 0]]) = 1 \<and>
   cnt_N (confusion_counts [[255, 255, 0, 0]] [[255, 0, 0, 0]]) = 3 \<and>
   cnt_tp (confusion_counts [[255, 255, 0, 0]] [[255, 0, 0, 0]]) +
     cnt_fp (confusion_counts [[255, 255, 0, 0]] [[255, 0, 0, 0]]) = 2 \<and>
   (\<exists>stats. mask_evaluation k [[255, 255, 0, 0]] [[255, 0, 0, 0]] = Inr stats \<and>
      stats ''Recall'' = Some (Num (Float 1)) \<and>
      stats ''F1'' = Some (Num (Float (6 / 7))) \<and>
      stats ''Precision'' = Some (Num (Float (3 / 4))) \<and>
      stats ''accuracy'' = Some (Num (Float (3 / 4)))) \<and>
   mask_sklearn_evaluation k [[255, 255, 0, 0]] [[255, 0, 0, 0]] ''Recall''
     = Some (Num (Float (3 / 4))) \<and>
   mask_sklearn_evaluation k [[255, 255, 0, 0]] [[255, 0, 0, 0]] ''F1''
     = Some (Num (Float (3 / 4))) \<and>
   mask_sklearn_evaluation k [[255, 255, 0, 0]] [[255, 0, 0, 0]] ''Precision''
     = Some (Num (Float (3 / 4))) \<and>
   mask_sklearn_evaluation k [[255, 255, 0, 0]] [[255, 0, 0, 0]] ''accuracy''
     = Some (Num (Float (3 / 4)))"
  by (simp add: mask_evaluation_def mask_sklearn_evaluation_def confusion_counts_example
      micro_example accuracy_score_def np_divide_def flatten_def Let_def)

theorem scorers_disagree_witness:
  "(\<exists>stats. mask_evaluation (\<lambda>_ _. ()) [[255, 255, 0, 0]] [[255, 0, 0, 0]] = Inr stats \<and>
      stats ''Recall'' = Some (Num (Float 1))) \<and>
   mask_sklearn_evaluation (\<lambda>_ _. ()) [[255, 255, 0, 0]] [[255, 0, 0, 0]] ''Recall''
     = Some (Num (Float (3 / 4)))"
  using scorers_disagree [of "\<lambda>_ _. ()"] by blast

section \<open>The coincidence ratio\<close>

lemma and_nonzero_cells:
  "(v = 0 \<or> v = 1 \<or> v = 255) \<Longrightarrow> (w = 0 \<or> w = 1 \<or> w = (255::u8)) \<Longrightarrow>
   (v AND w \<noteq> 0) = (v \<noteq> 0 \<and> w \<noteq> 0)"
  by auto

lemma valid_encoding_cells:
  "valid_encoding a \<Longrightarrow> list_all (\<lambda>v. v = 0 \<or> v = 1 \<or> v = 255) (flatten a)"
  by (auto simp add: valid_encoding_def encoded_01_def encoded_255_def list_all_iff)

lemma filter_and_zip:
  "length xs = length ys \<Longrightarrow> list_all (\<lambda>v. v = 0 \<or> v = 1 \<or> v = 255) xs \<Longrightarrow>
   list_all (\<lambda>v. v = 0 \<or> v = 1 \<or> v = (255::u8)) ys \<Longrightarrow>
   length (filter (\<lambda>v. v \<noteq> 0) (map2 (\<lambda>v w. v AND w) xs ys))
     = length (filter (\<lambda>(v, w). v \<noteq> 0 \<and> w \<noteq> 0) (zip xs ys))"
proof (induction xs ys rule: list_induct2)
  case Nil
  then show ?case by simp
next
  case (Cons x xs y ys)
  then show ?case using and_nonzero_cells [of x y] by simp
qed

lemma count_and_selected_both:
  assumes "same_shape a b" "valid_encoding a" "valid_encoding b"
  shows "count_nonzero (bitwise_and a b) = selected_both a b"
  using filter_and_zip [OF same_shape_length [OF assms(1)] valid_encoding_cells [OF assms(2)]
      valid_encoding_cells [OF assms(3)]] assms(1)
  by (simp add: count_nonzero_def selected_both_def flatten_bitwise_and)

lemma zip_filter_le:
  "length xs = length ys \<Longrightarrow>
   length (filter (\<lambda>(v, w). P v \<and> Q w) (zip xs ys)) \<le> length (filter P xs) \<and>
   length (filter (\<lambda>(v, w). P v \<and> Q w) (zip xs ys)) \<le> length (filter Q ys)"
  by (induction xs ys rule: list_induct2) auto

lemma selected_both_le:
  assumes "same_shape a b"
  shows "selected_both a b \<le> min (count_nonzero a) (count_nonzero b)"
  using zip_filter_le [OF same_shape_length [OF assms], of "\<lambda>v. v \<noteq> 0" "\<lambda>v. v \<noteq> 0"]
  by (simp add: selected_both_def count_nonzero_def)

lemma bitwise_and_self: "bitwise_and a a = a"
  by (simp add: bitwise_and_def map2_map_map [of _ "\<lambda>x. x" _ "\<lambda>x. x", simplified] zip_same_conv_map comp_def map_idI)

text \<open>
  C6 (as amended). For same-shape masks in the valid encodings the ratio is
  \<open>|A \<inter> B| / min |A| |B|\<close>, a value between 0 and 1, whenever both masks are
  non-empty, and 1 when the masks are equal and non-empty. When at least one of the masks
  is empty the divisor is zero and the division yields NaN.
\<close>

theorem masks_coincidence_ratio:
  assumes "same_shape a b" "valid_encoding a" "valid_encoding b"
  shows "(if count_nonzero a = 0 \<or> count_nonzero b = 0
          then masks_coincidence a b = NaN
          else \<exists>q. masks_coincidence a b = Float q \<and>
                   q = of_int (selected_both a b) /
                       of_int (min (count_nonzero a) (count_nonzero b)) \<and>
                   0 \<le> q \<and> q \<le> 1) \<and>
         (a = b \<and> count_nonzero a \<noteq> 0 \<longrightarrow> masks_coincidence a b = Float 1)"
proof -
  let ?m = "min (count_nonzero a) (count_nonzero b)"
  have eq: "count_nonzero (bitwise_and a b) = selected_both a b"
    by (rule count_and_selected_both [OF assms])
  have le: "selected_both a b \<le> ?m" by (rule selected_both_le [OF assms(1)])
  have nn: "0 \<le> selected_both a b" by (simp add: selected_both_def)
  have m0: "(?m = 0) = (count_nonzero a = 0 \<or> count_nonzero b = 0)"
    using count_nonzero_nonneg [of a] count_nonzero_nonneg [of b] by (auto simp add: min_def)
  have first: "if count_nonzero a = 0 \<or> count_nonzero b = 0
          then masks_coincidence a b = NaN
          else \<exists>q. masks_coincidence a b = Float q \<and>
                   q = of_int (selected_both a b) / of_int ?m \<and> 0 \<le> q \<and> q \<le> 1"
  proof (cases "?m = 0")
    case True
    with le nn have "selected_both a b = 0" by simp
    with True m0 show ?thesis
      by (simp add: masks_coincidence_def Let_def eq np_divide_def)
  next
    case False
    with m0 count_nonzero_nonneg [of a] count_nonzero_nonneg [of b] have pos: "0 < ?m"
      by (simp add: min_def split: if_splits)
    have "(of_int (selected_both a b) :: rat) / of_int ?m \<le> 1"
      using le pos by (simp add: divide_le_eq_1)
    moreover have "0 \<le> (of_int (selected_both a b) :: rat) / of_int ?m"
      using nn pos by simp
    ultimately show ?thesis using False m0
      by (simp add: masks_coincidence_def Let_def eq np_divide_def)
  qed
  have second: "a = b \<and> count_nonzero a \<noteq> 0 \<longrightarrow> masks_coincidence a b = Float 1"
    by (auto simp add: masks_coincidence_def Let_def bitwise_and_self np_divide_def)
  from first second show ?thesis by (rule conjI)
qed

theorem masks_coincidence_ratio_witness:
  "masks_coincidence [[255, 255, 0]] [[0, 1, 1]] = Float (1 / 2) \<and>
   masks_coincidence [[0, 0, 0]] [[0, 1, 1]] = NaN \<and>
   masks_coincidence [[0, 1, 1]] [[0, 1, 1]] = Float 1"
proof -
  have s: "same_shape [[255, 255, 0]] [[0, 1, 1]]" "same_shape [[0, 0, 0]] [[0, 1, 1]]"
    "same_shape [[0, 1, 1]] [[0, 1, 1]]"
    by (simp_all add: same_shape_def)
  have v: "valid_encoding [[255, 255, 0]]" "valid_encoding [[0, 1, 1]]"
    "valid_encoding [[0, 0, 0]]"
    by (simp_all add: valid_encoding_def encoded_01_def encoded_255_def flatten_def)
  from masks_coincidence_ratio [OF s(1) v(1) v(2)] masks_coincidence_ratio [OF s(2) v(3) v(2)]
    masks_coincidence_ratio [OF s(3) v(2) v(2)]
  show ?thesis
    by (auto simp add: count_nonzero_def selected_both_def flatten_def)
qed

text \<open>
  The claim as stated, with the failure exactly when both masks are empty, is false: an
  empty mask against a non-empty one divides by zero as well.
\<close>

theorem masks_coincidence_one_empty:
  "masks_coincidence [[0]] [[1]] = NaN \<and> count_nonzero [[1]] = 1"
  by (simp add: masks_coincidence_def np_divide_def count_nonzero_def bitwise_and_def
      flatten_def)

section \<open>Pixels and shapes\<close>

lemma same_shape_refl: "same_shape a a"
  by (simp add: same_shape_def)
lemma same_shape_sym: "same_shape a b \<Longrightarrow> same_shape b a"
  by (simp add: same_shape_def)
lemma same_shape_trans: "same_shape a b \<Longrightarrow> same_shape b c \<Longrightarrow> same_shape a c"
  by (simp add: same_shape_def)

lemma same_shape_in_image: "same_shape a b \<Longrightarrow> in_image a p = in_image b p"
proof -
  assume s: "same_shape a b"
  then have l: "length a = length b" unfolding same_shape_def by (metis length_map)
  have "snd p < length a \<Longrightarrow> length (a ! snd p) = length (b ! snd p)"
    using s l unfolding same_shape_def by (metis nth_map)
  with l show ?thesis by (auto simp add: in_image_def)
qed

lemma image_eqI:
  assumes "same_shape a b" and "\<And>p. in_image a p \<Longrightarrow> pixel a p = pixel b p"
  shows "a = b"
proof (rule nth_equalityI)
  show l: "length a = length b" using assms(1) unfolding same_shape_def by (metis length_map)
  fix y assume y: "y < length a"
  have ly: "length (a ! y) = length (b ! y)"
    using assms(1) l y unfolding same_shape_def by (metis nth_map)
  show "a ! y = b ! y"
  proof (rule nth_equalityI)
    show "length (a ! y) = length (b ! y)" by (rule ly)
    fix x assume "x < length (a ! y)"
    with y assms(2) [of "(x, y)"] show "a ! y ! x = b ! y ! x"
      by (simp add: in_image_def pixel_def)
  qed
qed

lemma same_shape_map_pixels: "same_shape (map_pixels f img) img"
  by (simp add: same_shape_def map_pixels_def comp_def map_nth [symmetric] del: map_nth)
    (rule nth_equalityI, simp_all)

lemma pixel_map_pixels: "in_image img p \<Longrightarrow> pixel (map_pixels f img) p = f p (pixel img p)"
  by (cases p) (simp add: in_image_def pixel_def map_pixels_def)

lemma same_shape_map_map: "same_shape (map (map f) img) img"
  by (simp add: same_shape_def comp_def)

lemma pixel_map_map: "in_image img p \<Longrightarrow> pixel (map (map f) img) p = f (pixel img p)"
  by (simp add: in_image_def pixel_def)











lemma flooded_in_image: "flooded img s p \<Longrightarrow> in_image img p"
  by (induction rule: flooded.induct) auto









section \<open>Flood fill\<close>













section \<open>Filling holes\<close>










section \<open>The reference contour routine\<close>

text \<open>
  The reference routine returns no contour exactly when the image has no nonzero pixel:
  the scan passes over zero pixels without effect, and the first nonzero pixel it meets
  starts an outer border in every retrieval mode.
\<close>

lemma scan_pixel_zero:
  "sc_prev st = 0 \<Longrightarrow> lab_get (sc_img st) (x, y) = 0 \<Longrightarrow> scan_pixel mode method y st x = st"
  by (simp add: scan_pixel_def Let_def)

lemma foldl_scan_pixel_zero:
  "sc_prev st = 0 \<Longrightarrow> \<forall>x \<in> set xs. lab_get (sc_img st) (x, y) = 0 \<Longrightarrow>
   foldl (scan_pixel mode method y) st xs = st"
  by (induction xs) (simp_all add: scan_pixel_zero)

lemma scan_pixel_keeps_contours:
  "sc_contours st \<noteq> [] \<Longrightarrow> sc_contours (scan_pixel mode method y st x) \<noteq> []"
  by (auto simp add: scan_pixel_def Let_def resume_scan_def split: prod.splits)

lemma foldl_scan_pixel_keeps_contours:
  "sc_contours st \<noteq> [] \<Longrightarrow> sc_contours (foldl (scan_pixel mode method y) st xs) \<noteq> []"
  by (induction xs arbitrary: st) (simp_all add: scan_pixel_keeps_contours)

lemma scan_pixel_starts_border:
  "sc_prev st = 0 \<Longrightarrow> sc_lnbd st = None \<Longrightarrow> lab_get (sc_img st) (x, y) = 1 \<Longrightarrow>
   sc_contours (scan_pixel mode method y st x) \<noteq> []"
  by (simp add: scan_pixel_def Let_def split: prod.splits)

lemma scan_row_zero:
  assumes "\<forall>x < length (sc_img st ! y). lab_get (sc_img st) (int x, int y) = 0"
  shows "scan_row mode method st y = st\<lparr>sc_prev := 0, sc_lnbd := None\<rparr>"
  unfolding scan_row_def
  by (rule foldl_scan_pixel_zero) (use assms in auto)

lemma scan_row_keeps_contours:
  "sc_contours st \<noteq> [] \<Longrightarrow> sc_contours (scan_row mode method st y) \<noteq> []"
  unfolding scan_row_def by (rule foldl_scan_pixel_keeps_contours) simp

lemma foldl_scan_row_keeps_contours:
  "sc_contours st \<noteq> [] \<Longrightarrow> sc_contours (foldl (scan_row mode method) st ys) \<noteq> []"
  by (induction ys arbitrary: st) (simp_all add: scan_row_keeps_contours)

lemma scan_row_nonzero:
  assumes ex: "\<exists>x < length (sc_img st ! y). lab_get (sc_img st) (int x, int y) \<noteq> 0"
      and bin: "\<forall>x < length (sc_img st ! y). lab_get (sc_img st) (int x, int y) = 0 \<or>
                  lab_get (sc_img st) (int x, int y) = 1"
  shows "sc_contours (scan_row mode method st y) \<noteq> []"
proof -
  let ?w = "length (sc_img st ! y)"
  let ?Q = "\<lambda>x. x < ?w \<and> lab_get (sc_img st) (int x, int y) \<noteq> 0"
  define x0 where "x0 = (LEAST x. ?Q x)"
  from ex have q: "?Q x0" unfolding x0_def by (metis (mono_tags, lifting) LeastI)
  have before: "\<And>x. x < x0 \<Longrightarrow> lab_get (sc_img st) (int x, int y) = 0"
  proof -
    fix x assume "x < x0"
    then have "\<not> ?Q x" unfolding x0_def by (rule not_less_Least)
    with \<open>x < x0\<close> q show "lab_get (sc_img st) (int x, int y) = 0" by auto
  qed
  from q bin have one: "lab_get (sc_img st) (int x0, int y) = 1" by auto
  let ?st0 = "st\<lparr>sc_prev := 0, sc_lnbd := None\<rparr>"
  have split: "[0..<?w] = [0..<x0] @ x0 # [Suc x0..<?w]"
    using q by (metis le0 upt_conv_Cons upt_add_eq_append le_add_diff_inverse less_imp_le_nat)
  have pre: "foldl (scan_pixel mode method (int y)) ?st0 (map int [0..<x0]) = ?st0"
    by (rule foldl_scan_pixel_zero) (use before in auto)
  have "sc_contours (scan_pixel mode method (int y) ?st0 (int x0)) \<noteq> []"
    by (rule scan_pixel_starts_border) (use one in simp_all)
  then show ?thesis
    unfolding scan_row_def split by (simp add: pre foldl_scan_pixel_keeps_contours)
qed

lemma foldl_scan_row_zero:
  assumes "\<forall>y \<in> set ys. \<forall>x < length (sc_img st ! y). lab_get (sc_img st) (int x, int y) = 0"
  shows "sc_img (foldl (scan_row mode method) st ys) = sc_img st \<and>
         sc_contours (foldl (scan_row mode method) st ys) = sc_contours st"
  using assms
proof (induction ys arbitrary: st)
  case Nil
  then show ?case by simp
next
  case (Cons y ys)
  then have r: "scan_row mode method st y = st\<lparr>sc_prev := 0, sc_lnbd := None\<rparr>"
    by (simp add: scan_row_zero)
  from Cons.prems Cons.IH [of "st\<lparr>sc_prev := 0, sc_lnbd := None\<rparr>"] show ?case
    by (simp add: r)
qed

lemma lab_get_binary:
  "y < length img \<Longrightarrow> x < length (img ! y) \<Longrightarrow>
   lab_get (binary_labels img) (int x, int y) = (if img ! y ! x \<noteq> 0 then 1 else 0)"
  by (simp add: lab_get_def binary_labels_def)

lemma count_nonzero_zero_iff:
  "(count_nonzero img = 0) = (\<forall>y < length img. \<forall>x < length (img ! y). img ! y ! x = 0)"
proof -
  have "(count_nonzero img = 0) = (\<forall>v \<in> set (concat img). v = 0)"
    by (simp add: count_nonzero_def flatten_def filter_empty_conv)
  also have "\<dots> = (\<forall>y < length img. \<forall>x < length (img ! y). img ! y ! x = 0)"
    by (auto simp add: in_set_conv_nth) (metis nth_mem)
  finally show ?thesis .
qed

lemma cv_findContours_empty_iff:
  "(cv_findContours img mode method = []) = (count_nonzero img = 0)"
proof
  let ?f = "binary_labels img"
  let ?st = "\<lparr>sc_img = ?f, sc_prev = 0, sc_lnbd = None, sc_contours = []\<rparr>"
  have cv: "cv_findContours img mode method
      = sc_contours (foldl (scan_row mode method) ?st [0..<length img])"
    by (simp add: cv_findContours_def Let_def)
  have w: "\<And>y. y < length img \<Longrightarrow> length (?f ! y) = length (img ! y)"
    by (simp add: binary_labels_def)
  {
    assume z: "count_nonzero img = 0"
    have "\<forall>y \<in> set [0..<length img]. \<forall>x < length (sc_img ?st ! y).
            lab_get (sc_img ?st) (int x, int y) = 0"
      using z w by (auto simp add: count_nonzero_zero_iff lab_get_binary)
    from foldl_scan_row_zero [OF this, of mode "method"]
    show "cv_findContours img mode method = []" by (simp add: cv)
  }
  {
    assume e: "cv_findContours img mode method = []"
    show "count_nonzero img = 0"
    proof (rule ccontr)
      assume "count_nonzero img \<noteq> 0"
      then have ex: "\<exists>y. y < length img \<and> (\<exists>x < length (img ! y). img ! y ! x \<noteq> 0)"
        by (auto simp add: count_nonzero_zero_iff)
      define y0 where "y0 = (LEAST y. y < length img \<and> (\<exists>x < length (img ! y). img ! y ! x \<noteq> 0))"
      from ex have q: "y0 < length img \<and> (\<exists>x < length (img ! y0). img ! y0 ! x \<noteq> 0)"
        unfolding y0_def by (rule LeastI_ex)
      have before: "\<And>y x. y < y0 \<Longrightarrow> x < length (img ! y) \<Longrightarrow> img ! y ! x = 0"
      proof -
        fix y x assume y: "y < y0" and x: "x < length (img ! y)"
        from y have "\<not> (y < length img \<and> (\<exists>x < length (img ! y). img ! y ! x \<noteq> 0))"
          unfolding y0_def by (rule not_less_Least)
        with y q x show "img ! y ! x = 0" by auto
      qed
      have split: "[0..<length img] = [0..<y0] @ y0 # [Suc y0..<length img]"
        using q by (metis le0 upt_conv_Cons upt_add_eq_append le_add_diff_inverse less_imp_le_nat)
      let ?st1 = "foldl (scan_row mode method) ?st [0..<y0]"
      have "\<forall>y \<in> set [0..<y0]. \<forall>x < length (sc_img ?st ! y).
              lab_get (sc_img ?st) (int x, int y) = 0"
        using before q w by (auto simp add: lab_get_binary)
      from foldl_scan_row_zero [OF this, of mode "method"]
      have st1: "sc_img ?st1 = ?f" by simp
      have "sc_contours (scan_row mode method ?st1 y0) \<noteq> []"
      proof (rule scan_row_nonzero)
        show "\<exists>x < length (sc_img ?st1 ! y0). lab_get (sc_img ?st1) (int x, int y0) \<noteq> 0"
          using q w by (auto simp add: st1 lab_get_binary)
        show "\<forall>x < length (sc_img ?st1 ! y0). lab_get (sc_img ?st1) (int x, int y0) = 0 \<or>
                  lab_get (sc_img ?st1) (int x, int y0) = 1"
          using q w by (auto simp add: st1 lab_get_binary)
      qed
      then have "cv_findContours img mode method \<noteq> []"
        unfolding cv split by (simp add: foldl_scan_row_keeps_contours)
      with e show False by simp
    qed
  }
qed

lemma count_nonzero_map_cells:
  "(count_nonzero (map (map f) img) = 0) = list_all (\<lambda>v. f v = 0) (flatten img)"
  by (simp add: count_nonzero_def flatten_def map_concat [symmetric] filter_empty_conv
      list_all_iff)

lemma threshold_no_foreground:
  "(count_nonzero (threshold_binary_inv msk 1 255) = 0) = list_all (\<lambda>v. 1 < v) (flatten msk)"
  by (simp add: threshold_binary_inv_def count_nonzero_map_cells)


section \<open>The largest component\<close>

lemma same_shape_paint_polys: "same_shape (paint_polys img cs col) img"
  by (simp add: paint_polys_def same_shape_map_pixels)

lemma pixel_paint_polys:
  "in_image img p \<Longrightarrow> pixel (paint_polys img cs col) p =
     (if list_ex (\<lambda>c. poly_covers c (int (fst p), int (snd p))) cs then col else pixel img p)"
  by (simp add: paint_polys_def pixel_map_pixels)

lemma same_shape_zeros_like: "same_shape (zeros_like img) img"
  by (simp add: zeros_like_def same_shape_map_map)

lemma pixel_zeros_like: "in_image img p \<Longrightarrow> pixel (zeros_like img) p = 0"
  by (simp add: zeros_like_def pixel_map_map)

lemma flatten_cells:
  assumes "\<And>p. in_image img p \<Longrightarrow> Q (pixel img p)"
  shows "list_all Q (flatten img)"
proof -
  have "Q v" if "v \<in> set (concat img)" for v
  proof -
    from that obtain row where r: "row \<in> set img" "v \<in> set row" by auto
    then obtain y x where "y < length img" "img ! y = row" "x < length row" "row ! x = v"
      by (metis in_set_conv_nth)
    then show ?thesis using assms [of "(x, y)"] by (auto simp add: in_image_def pixel_def)
  qed
  then show ?thesis by (simp add: flatten_def list_all_iff)
qed

lemma all_points_same_shape: "same_shape a b \<Longrightarrow> all_points a = all_points b"
proof -
  assume s: "same_shape a b"
  then have l: "length a = length b" unfolding same_shape_def by (metis length_map)
  have "\<And>y. y < length a \<Longrightarrow> length (a ! y) = length (b ! y)"
    using s l unfolding same_shape_def by (metis nth_map)
  then show ?thesis unfolding all_points_def l [symmetric]
    by (intro arg_cong [where f = concat] map_cong) auto
qed

lemma flatten_map_pixels:
  "flatten (map_pixels f img) = map (\<lambda>p. f p (pixel img p)) (all_points img)"
  by (simp add: flatten_def map_pixels_def all_points_def map_concat comp_def pixel_def)

lemma length_all_points: "int (length (all_points img)) = total_pixels img"
proof -
  have "flatten (map_pixels (\<lambda>p v. v) img) = map (pixel img) (all_points img)"
    by (rule flatten_map_pixels)
  moreover have "map_pixels (\<lambda>p v. v) img = img"
    by (rule image_eqI [OF same_shape_map_pixels]) (simp add: pixel_map_pixels same_shape_in_image [OF same_shape_map_pixels])
  ultimately have "flatten img = map (pixel img) (all_points img)" by simp
  then have "length (flatten img) = length (all_points img)" by simp
  then show ?thesis by (simp add: total_pixels_def)
qed

lemma biggest_pixels:
  assumes "findContours (f_m_binary_of msk) RETR_EXTERNAL CHAIN_APPROX_NONE = contours"
      and "contours \<noteq> []"
  shows "mask_biggest_connected_component findContours msk =
           map_pixels (\<lambda>p v. if poly_covers (py_max_by contourArea contours)
                                      (int (fst p), int (snd p)) then 1 else 0) msk"
proof (rule image_eqI)
  let ?b = "f_m_binary_of msk"
  let ?c = "py_max_by contourArea contours"
  have out: "mask_biggest_connected_component findContours msk
      = paint_polys (zeros_like ?b) [?c] 1"
    using assms by (simp add: mask_biggest_connected_component_def Let_def fillPoly_def)
  have sb: "same_shape ?b msk" unfolding f_m_binary_of_def by (rule same_shape_map_map)
  have sz: "same_shape (zeros_like ?b) msk"
    by (rule same_shape_trans [OF same_shape_zeros_like sb])
  have so: "same_shape (mask_biggest_connected_component findContours msk) msk"
    unfolding out by (rule same_shape_trans [OF same_shape_paint_polys sz])
  show "same_shape (mask_biggest_connected_component findContours msk)
     (map_pixels (\<lambda>p v. if poly_covers ?c (int (fst p), int (snd p)) then 1 else 0) msk)"
    by (rule same_shape_trans [OF so same_shape_sym [OF same_shape_map_pixels]])
  fix p assume "in_image (mask_biggest_connected_component findContours msk) p"
  then have pm: "in_image msk p" using same_shape_in_image [OF so] by simp
  then have pb: "in_image ?b p" using same_shape_in_image [OF sb] by simp
  then have pz: "in_image (zeros_like ?b) p" using same_shape_in_image [OF sz] pm by simp
  show "pixel (mask_biggest_connected_component findContours msk) p =
     pixel (map_pixels (\<lambda>p v. if poly_covers ?c (int (fst p), int (snd p)) then 1 else 0) msk) p"
    unfolding out
    by (simp add: pixel_paint_polys [OF pz] pixel_zeros_like [OF pb] pixel_map_pixels [OF pm])
qed




lemma poly_covers_vertex:
  assumes "p \<in> set c"
  shows "poly_covers c p"
proof -
  from assms obtain i where i: "i < length c" "c ! i = p" by (auto simp add: in_set_conv_nth)
  then have "(p, rotate1 c ! i) \<in> set (contour_edges c)"
    by (auto simp add: contour_edges_def in_set_zip)
  moreover have "on_segment p (p, rotate1 c ! i)" by (simp add: on_segment_def)
  ultimately show ?thesis by (auto simp add: poly_covers_def list_ex_iff)
qed

text \<open>
  C10. Whenever \<^verbatim>\<open>findContours\<close> returns at least one contour, the result of
  \<^verbatim>\<open>mask_biggest_connected_component\<close> has the shape of the input and holds only
  0 and 1: 1 on the pixels that the filled polygon of the kept contour covers (the
  points of the contour among them), 0 elsewhere, whatever the encoding of the input.
\<close>

theorem mask_biggest_connected_component_encoded_01:
  assumes "findContours (f_m_binary_of msk) RETR_EXTERNAL CHAIN_APPROX_NONE \<noteq> []"
  shows "encoded_01 (mask_biggest_connected_component findContours msk) \<and>
         same_shape (mask_biggest_connected_component findContours msk) msk \<and>
         (\<forall>p. in_image msk p \<longrightarrow>
            pixel (mask_biggest_connected_component findContours msk) p =
              (if poly_covers
                    (py_max_by contourArea
                       (findContours (f_m_binary_of msk) RETR_EXTERNAL CHAIN_APPROX_NONE))
                    (int (fst p), int (snd p))
               then 1 else 0)) \<and>
         (\<forall>p. in_image msk p \<and>
              (int (fst p), int (snd p)) \<in> set (py_max_by contourArea
                 (findContours (f_m_binary_of msk) RETR_EXTERNAL CHAIN_APPROX_NONE)) \<longrightarrow>
            pixel (mask_biggest_connected_component findContours msk) p = 1)"
proof -
  let ?cs = "findContours (f_m_binary_of msk) RETR_EXTERNAL CHAIN_APPROX_NONE"
  note eq = biggest_pixels [of findContours msk ?cs, OF refl assms]
  have px: "\<And>p. in_image msk p \<Longrightarrow>
      pixel (mask_biggest_connected_component findContours msk) p =
        (if poly_covers (py_max_by contourArea ?cs) (int (fst p), int (snd p)) then 1 else 0)"
    unfolding eq by (simp add: pixel_map_pixels)
  have s: "same_shape (mask_biggest_connected_component findContours msk) msk"
    unfolding eq by (rule same_shape_map_pixels)
  have v: "\<forall>p. in_image msk p \<and>
      (int (fst p), int (snd p)) \<in> set (py_max_by contourArea ?cs) \<longrightarrow>
      pixel (mask_biggest_connected_component findContours msk) p = 1"
    using px poly_covers_vertex by auto
  have "encoded_01 (mask_biggest_connected_component findContours msk)"
    unfolding encoded_01_def
  proof (rule flatten_cells)
    fix p assume "in_image (mask_biggest_connected_component findContours msk) p"
    then have "in_image msk p" using same_shape_in_image [OF s] by simp
    from px [OF this]
    show "pixel (mask_biggest_connected_component findContours msk) p = 0 \<or>
          pixel (mask_biggest_connected_component findContours msk) p = 1"
      by simp
  qed
  with s px v show ?thesis by blast
qed

theorem mask_biggest_connected_component_encoded_01_witness:
  "encoded_255 [[0, 255, 255], [0, 255, 255]] \<and>
   encoded_01 (mask_biggest_connected_component cv_findContours [[0, 255, 255], [0, 255, 255]]) \<and>
   mask_biggest_connected_component cv_findContours [[0, 255, 255], [0, 255, 255]]
     = [[0, 1, 1], [0, 1, 1]]"
proof -
  have c: "cv_findContours (f_m_binary_of [[0, 255, 255], [0, 255, 255]])
             RETR_EXTERNAL CHAIN_APPROX_NONE \<noteq> []"
    by code_simp
  have e: "mask_biggest_connected_component cv_findContours [[0, 255, 255], [0, 255, 255]]
     = [[0, 1, 1], [0, 1, 1]]"
    by code_simp
  from mask_biggest_connected_component_encoded_01
         [of cv_findContours "[[0, 255, 255], [0, 255, 255]]", OF c] e
  show ?thesis
    by (simp add: encoded_255_def flatten_def)
qed




section \<open>Pruning by region\<close>

lemma m00_contourArea: "m00 (cv_moments c) = contourArea c"
  by (simp add: cv_moments_def contourArea_def Let_def)

lemma delete_contour_step_Inr:
  "delete_contour_step region (Inr m) c =
     Inr (if prunes region c then paint_polys m [c] 0 else m)"
proof (cases "100 < contourArea c")
  case True
  then have "m00 (cv_moments c) \<noteq> 0" by (simp add: m00_contourArea)
  with True show ?thesis
    by (simp add: delete_contour_step_def prunes_def Let_def drawContours_filled_def)
next
  case False
  then show ?thesis by (simp add: delete_contour_step_def prunes_def Let_def)
qed

lemma foldl_delete_contour_step:
  "foldl (delete_contour_step region) (Inr m) cs =
     Inr (foldl (\<lambda>m c. if prunes region c then paint_polys m [c] 0 else m) m cs)"
  by (induction cs arbitrary: m) (simp_all add: delete_contour_step_Inr)

lemma foldl_prune_pixels:
  "same_shape (foldl (\<lambda>m c. if prunes region c then paint_polys m [c] 0 else m) m cs) m \<and>
   (in_image m p \<longrightarrow>
      pixel (foldl (\<lambda>m c. if prunes region c then paint_polys m [c] 0 else m) m cs) p =
        (if \<exists>c \<in> set cs. prunes region c \<and> poly_covers c (int (fst p), int (snd p))
         then 0 else pixel m p))"
proof (induction cs arbitrary: m)
  case Nil
  then show ?case by (simp add: same_shape_refl)
next
  case (Cons c cs)
  let ?m = "if prunes region c then paint_polys m [c] 0 else m"
  have s: "same_shape ?m m" by (simp add: same_shape_paint_polys same_shape_refl)
  have px: "in_image m p \<Longrightarrow> pixel ?m p =
      (if prunes region c \<and> poly_covers c (int (fst p), int (snd p)) then 0 else pixel m p)"
    by (simp add: pixel_paint_polys)
  from Cons.IH [of ?m] s px same_shape_in_image [OF s, of p]
  show ?case by (auto intro: same_shape_trans)
qed

text \<open>
  C7 (as amended). \<^verbatim>\<open>mask_delete_contour_in\<close> never fails. A pixel of the result is 0
  when the filled polygon of some contour with \<open>prunes region\<close> covers it, and keeps
  its value otherwise: the contours erased are those whose polygon area exceeds 100 and
  whose centroid, truncated, lies above the boundary.
\<close>

theorem mask_delete_contour_in_pixels:
  "\<exists>out. mask_delete_contour_in findContours msk region = Inr out \<and> same_shape out msk \<and>
     (\<forall>p. in_image msk p \<longrightarrow>
        pixel out p =
          (if \<exists>c \<in> set (findContours msk RETR_TREE CHAIN_APPROX_SIMPLE).
                prunes region c \<and> poly_covers c (int (fst p), int (snd p))
           then 0 else pixel msk p))"
  using foldl_prune_pixels [of region msk "findContours msk RETR_TREE CHAIN_APPROX_SIMPLE"]
  by (simp add: mask_delete_contour_in_def Let_def foldl_delete_contour_step)

theorem mask_delete_contour_in_pixels_witness:
  "mask_delete_contour_in cv_findContours [[255, 255], [255, 255]] 20
     = Inr [[255, 255], [255, 255]] \<and>
   (\<exists>out. mask_delete_contour_in cv_findContours frame_island 2 = Inr out \<and>
      pixel out (13, 2) = 255 \<and> pixel out (0, 0) = 255)"
proof -
  have c1: "cv_findContours [[255, 255], [255, 255]] RETR_TREE CHAIN_APPROX_SIMPLE
      = [[(0, 0), (0, 1), (1, 1), (1, 0)]]"
    by code_simp
  have p1: "\<not> prunes 20 [(0, 0), (0, 1), (1, 1), (1, 0)]"
    by code_simp
  have c2: "cv_findContours frame_island RETR_TREE CHAIN_APPROX_SIMPLE
      = [[(13, 2)],
         [(0, 1), (1, 0), (25, 0), (26, 1), (26, 3), (25, 4), (1, 4), (0, 3)],
         [(0, 0), (0, 4), (26, 4), (26, 0)]]"
    unfolding frame_island_def by code_simp
  have p2: "\<not> prunes 2 [(13, 2)]"
    "\<not> prunes 2 [(0, 1), (1, 0), (25, 0), (26, 1), (26, 3), (25, 4), (1, 4), (0, 3)]"
    "\<not> prunes 2 [(0, 0), (0, 4), (26, 4), (26, 0)]"
    by code_simp+
  have i: "in_image frame_island (13, 2)" "in_image frame_island (0, 0)"
    "pixel frame_island (13, 2) = 255" "pixel frame_island (0, 0) = 255"
    unfolding frame_island_def by (simp_all add: in_image_def pixel_def)
  from mask_delete_contour_in_pixels [of cv_findContours "[[255, 255], [255, 255]]" 20]
  obtain out where o: "mask_delete_contour_in cv_findContours [[255, 255], [255, 255]] 20 = Inr out"
    "same_shape out [[255, 255], [255, 255]]"
    "\<forall>p. in_image [[255, 255], [255, 255]] p \<longrightarrow> pixel out p = pixel [[255, 255], [255, 255]] p"
    by (auto simp add: c1 p1)
  have "out = [[255, 255], [255, 255]]"
    by (rule image_eqI [OF o(2)]) (use o(3) same_shape_in_image [OF o(2)] in auto)
  with o(1) have first: "mask_delete_contour_in cv_findContours [[255, 255], [255, 255]] 20
     = Inr [[255, 255], [255, 255]]" by simp
  from mask_delete_contour_in_pixels [of cv_findContours frame_island 2]
  have second: "\<exists>out. mask_delete_contour_in cv_findContours frame_island 2 = Inr out \<and>
      pixel out (13, 2) = 255 \<and> pixel out (0, 0) = 255"
    using i by (auto simp add: c2 p2)
  from first second show ?thesis by (rule conjI)
qed

text \<open>
  A small region is erased when it lies inside the polygon of an erased contour: the
  island of one pixel, whose contour has area 0, disappears with the frame around it.
\<close>

theorem mask_delete_contour_in_island_erased:
  "pixel frame_island (13, 2) = 255 \<and>
   [(13, 2)] \<in> set (cv_findContours frame_island RETR_TREE CHAIN_APPROX_SIMPLE) \<and>
   contourArea [(13, 2)] = 0 \<and>
   mask_delete_contour_in cv_findContours frame_island 20 = Inr (replicate 5 (replicate 27 0))"
proof -
  have c2: "cv_findContours frame_island RETR_TREE CHAIN_APPROX_SIMPLE
      = [[(13, 2)],
         [(0, 1), (1, 0), (25, 0), (26, 1), (26, 3), (25, 4), (1, 4), (0, 3)],
         [(0, 0), (0, 4), (26, 4), (26, 0)]]"
    unfolding frame_island_def by code_simp
  have a: "contourArea [(13, 2)] = 0" by code_simp
  have e: "mask_delete_contour_in cv_findContours frame_island 20
      = Inr (replicate 5 (replicate 27 0))"
    unfolding frame_island_def by code_simp
  have p: "pixel frame_island (13, 2) = 255"
    unfolding frame_island_def by (simp add: pixel_def)
  from p a e show ?thesis by (simp add: c2)
qed

section \<open>The bounding circle\<close>

lemma pixel_threshold_binary_inv:
  "in_image msk p \<Longrightarrow>
   pixel (threshold_binary_inv msk 1 255) p = (if pixel msk p \<le> 1 then 255 else 0)"
  by (auto simp add: threshold_binary_inv_def pixel_map_map not_less)

text \<open>
  C5 (as amended). \<^verbatim>\<open>mask_bounding_circle\<close> fails, with an index fault, exactly when
  \<^verbatim>\<open>findContours\<close> returns no contour of the inverted binarization; otherwise it
  returns the circle of the first contour of the list, truncated to integers. The
  foreground of the binarization is the set of pixels whose value is at most 1; with the
  reference contour routine the call fails exactly when every pixel of the mask exceeds 1.
\<close>

theorem mask_bounding_circle_first_contour:
  "(mask_bounding_circle findContours minEnclosingCircle msk = Inl IndexError) =
     (findContours (threshold_binary_inv msk 1 255) RETR_LIST CHAIN_APPROX_NONE = []) \<and>
   (\<forall>cnt rest. findContours (threshold_binary_inv msk 1 255) RETR_LIST CHAIN_APPROX_NONE
        = cnt # rest \<longrightarrow>
      mask_bounding_circle findContours minEnclosingCircle msk =
        Inr ((int_trunc (fst (fst (minEnclosingCircle cnt))),
              int_trunc (snd (fst (minEnclosingCircle cnt)))),
             int_trunc (snd (minEnclosingCircle cnt)))) \<and>
   same_shape (threshold_binary_inv msk 1 255) msk \<and>
   (\<forall>p. in_image msk p \<longrightarrow>
      pixel (threshold_binary_inv msk 1 255) p = (if pixel msk p \<le> 1 then 255 else 0)) \<and>
   (mask_bounding_circle cv_findContours minEnclosingCircle msk = Inl IndexError) =
     list_all (\<lambda>v. 1 < v) (flatten msk)"
proof (intro conjI allI impI)
  show "(mask_bounding_circle findContours minEnclosingCircle msk = Inl IndexError) =
     (findContours (threshold_binary_inv msk 1 255) RETR_LIST CHAIN_APPROX_NONE = [])"
    by (simp add: mask_bounding_circle_def Let_def split: list.splits prod.splits)
next
  fix cnt rest
  assume "findContours (threshold_binary_inv msk 1 255) RETR_LIST CHAIN_APPROX_NONE = cnt # rest"
  then show "mask_bounding_circle findContours minEnclosingCircle msk =
        Inr ((int_trunc (fst (fst (minEnclosingCircle cnt))),
              int_trunc (snd (fst (minEnclosingCircle cnt)))),
             int_trunc (snd (minEnclosingCircle cnt)))"
    by (simp add: mask_bounding_circle_def Let_def split: prod.splits)
next
  show "same_shape (threshold_binary_inv msk 1 255) msk"
    by (simp add: threshold_binary_inv_def same_shape_map_map)
next
  fix p assume "in_image msk p"
  then show "pixel (threshold_binary_inv msk 1 255) p = (if pixel msk p \<le> 1 then 255 else 0)"
    by (rule pixel_threshold_binary_inv)
next
  have "(mask_bounding_circle cv_findContours minEnclosingCircle msk = Inl IndexError) =
     (cv_findContours (threshold_binary_inv msk 1 255) RETR_LIST CHAIN_APPROX_NONE = [])"
    by (simp add: mask_bounding_circle_def Let_def split: list.splits prod.splits)
  then show "(mask_bounding_circle cv_findContours minEnclosingCircle msk = Inl IndexError) =
     list_all (\<lambda>v. 1 < v) (flatten msk)"
    by (simp add: cv_findContours_empty_iff threshold_no_foreground)
qed

theorem mask_bounding_circle_first_contour_witness:
  "mask_bounding_circle cv_findContours (\<lambda>cnt. ((1, 1), 1 / 10000))
     [[255, 255, 255], [255, 0, 255], [255, 255, 255]] = Inr ((1, 1), 0)"
proof -
  have c: "cv_findContours (threshold_binary_inv [[255, 255, 255], [255, 0, 255], [255, 255, 255]]
      1 255) RETR_LIST CHAIN_APPROX_NONE = [(1, 1)] # []"
    by code_simp
  note r = mask_bounding_circle_first_contour
    [of cv_findContours "\<lambda>cnt. ((1, 1), 1 / 10000)"
        "[[255, 255, 255], [255, 0, 255], [255, 255, 255]]"]
  have t: "int_trunc 1 = 1" "int_trunc (1 / 10000) = 0" by code_simp+
  from r c show ?thesis by (simp add: t)
qed

text \<open>
  The failure is not the case of the empty mask: the binarization of an all-zero mask is
  all foreground and has a contour, and the binarization of a fully selected 0/255 mask
  has none. The circle routine is a parameter; here it is a fixed circle, which the
  failing call never reaches.
\<close>

theorem mask_bounding_circle_empty_and_full:
  "mask_bounding_circle cv_findContours (\<lambda>cnt. ((1, 1), 3 / 2))
     [[0, 0, 0], [0, 0, 0], [0, 0, 0]] = Inr ((1, 1), 1) \<and>
   mask_bounding_circle cv_findContours (\<lambda>cnt. ((1, 1), 3 / 2))
     [[255, 255, 255], [255, 255, 255], [255, 255, 255]] = Inl IndexError"
  by code_simp

end
